theory Spec2Isabelle
  imports Complex_Main
begin

section \<open>The RNAcentral webinar notebook: significance filter, rate-limited lookups\<close>

text \<open>
  The notebook \<^verbatim>\<open>ProgrammaticDataAccess.ipynb\<close> reads a DESeq2 result table, keeps the
  rows with \<^verbatim>\<open>pvalue < 0.01\<close>, asks the RNAcentral API about every retained
  identifier through a function decorated with \<^verbatim>\<open>@limits(calls=20, period=1)\<close>, and
  looks publications up for one set of gene names. Each code cell is embedded below as a
  HOL function; exceptions are values of a sum type, the clock and the log of HTTP
  requests are explicit state.
\<close>

subsection \<open>Column values: Python floats under comparison\<close>

text \<open>
  The \<^verbatim>\<open>pvalue\<close> column holds IEEE doubles; \<^verbatim>\<open>read_csv\<close> stores a missing cell as
  NaN. Only the order of the values is used by the notebook, and the order of two doubles
  is the order of the numbers they denote, so a finite double is modelled by the rational
  it denotes. NaN is unordered: every comparison with it is false. In the examples a
  decimal such as \<open>0.001\<close> is written for the double nearest to it; it compares with
  the threshold as that double does.
\<close>

datatype pyfloat = NaN | NegInf | Finite rat | PosInf

fun float_lt :: "pyfloat \<Rightarrow> pyfloat \<Rightarrow> bool" where
  "float_lt NaN _ = False"
| "float_lt _ NaN = False"
| "float_lt NegInf NegInf = False"
| "float_lt NegInf _ = True"
| "float_lt (Finite a) (Finite b) = (a < b)"
| "float_lt (Finite a) PosInf = True"
| "float_lt (Finite a) NegInf = False"
| "float_lt PosInf _ = False"

subsection \<open>The significance filter\<close>

text \<open>
  \<^verbatim>\<open>de_data = de_data[de_data["pvalue"] < 0.01]\<close>

  A row of the table has the identifier column \<^verbatim>\<open>urs_taxid\<close>, the \<^verbatim>\<open>pvalue\<close> column and
  any number of further columns (the record's extension). The statement has three steps:
  the column is read, compared elementwise with the scalar, which gives a Boolean mask,
  and the table is indexed with the mask, which keeps the rows under a \<open>True\<close> in their
  order.

  The literal \<^verbatim>\<open>0.01\<close> is the double nearest to \<open>1/100\<close>, which lies just above it; no
  double lies between the two, so a double is below the literal exactly when the number
  it denotes is below \<open>1/100\<close>.
\<close>

record de_row =
  urs_taxid :: string
  pvalue :: pyfloat

definition column_pvalue :: "'a de_row_scheme list \<Rightarrow> pyfloat list" where
  "column_pvalue df = map pvalue df"

definition series_lt :: "pyfloat list \<Rightarrow> pyfloat \<Rightarrow> bool list" where
  "series_lt col c = map (\<lambda>x. float_lt x c) col"

definition getitem_mask :: "'r list \<Rightarrow> bool list \<Rightarrow> 'r list" where
  "getitem_mask df bs = map fst (filter snd (zip df bs))"

definition threshold :: pyfloat where
  "threshold = Finite (1 / 100)"

definition significant :: "'a de_row_scheme list \<Rightarrow> 'a de_row_scheme list" where
  "significant de_data = getitem_mask de_data (series_lt (column_pvalue de_data) threshold)"

subsection \<open>Exceptions, JSON values, HTTP responses\<close>

text \<open>
  An exception is a value: the result of a call that can raise is \<open>py_error + 'a\<close>, with
  \<open>Inl\<close> for the exception. \<open>RateLimitException\<close> carries its \<^verbatim>\<open>period_remaining\<close>.
  \<open>RequestException\<close> stands for whatever \<^verbatim>\<open>requests.get\<close> raises when no response
  arrives, \<open>JSONDecodeError\<close> for a body that is not JSON.
\<close>

datatype py_error =
    RateLimitException rat
  | RequestException
  | JSONDecodeError
  | KeyError
  | IndexError
  | TypeError

text \<open>
  What \<^verbatim>\<open>response.json()\<close> returns: \<^verbatim>\<open>None\<close>, a \<^verbatim>\<open>bool\<close>, an \<^verbatim>\<open>int\<close>, a \<^verbatim>\<open>float\<close>, a
  \<^verbatim>\<open>str\<close>, a \<^verbatim>\<open>list\<close> or a \<^verbatim>\<open>dict\<close> with string keys (an association list, in the
  order of the keys).
\<close>

datatype json =
    JNull
  | JBool bool
  | JInt int
  | JFloat pyfloat
  | JString string
  | JArray "json list"
  | JObject "(string \<times> json) list"

text \<open>
  A response has a status code and a body; \<open>json_body\<close> is what the body decodes to,
  \<open>None\<close> when it is not valid JSON. \<^verbatim>\<open>response.json()\<close> returns the decoded body or
  raises.
\<close>

record response =
  status_code :: int
  json_body :: "json option"

definition response_json :: "response \<Rightarrow> py_error + json" where
  "response_json resp = (case json_body resp of None \<Rightarrow> Inl JSONDecodeError | Some j \<Rightarrow> Inr j)"

subsection \<open>The world: a clock and the log of requests\<close>

text \<open>
  \<open>now\<close> is the reading of the clock, in seconds; \<open>requests\<close> logs every HTTP GET that
  was issued, with the time it started and its URL. The network is a parameter: asked in
  a world for a URL, it answers with the time the call takes and with a response, or with
  none when \<^verbatim>\<open>requests.get\<close> raises. \<^verbatim>\<open>requests.get(url)\<close> blocks for that time.
\<close>

record world =
  now :: rat
  requests :: "(rat \<times> string) list"

type_synonym network = "world \<Rightarrow> string \<Rightarrow> rat \<times> response option"

definition requests_get :: "network \<Rightarrow> string \<Rightarrow> world \<Rightarrow> (py_error + response) \<times> world" where
  "requests_get net url w =
     (let (latency, answer) = net w url;
          w' = \<lparr>now = now w + latency, requests = requests w @ [(now w, url)]\<rparr>
      in (case answer of None \<Rightarrow> (Inl RequestException, w') | Some resp \<Rightarrow> (Inr resp, w')))"

subsection \<open>The decorator \<^verbatim>\<open>limits\<close> of the package \<^verbatim>\<open>ratelimit\<close>\<close>

text \<open>
  The notebook imports \<^verbatim>\<open>limits\<close> from the package \<^verbatim>\<open>ratelimit\<close> and applies it alone
  (\<^verbatim>\<open>sleep_and_retry\<close> of the same package is neither imported nor applied). The package
  is not part of the repository; the decorator is modelled as the package (2.2.1) defines
  it, in outline:
  \<^verbatim>\<open>
  class RateLimitDecorator(object):
      def __init__(self, calls=15, period=900, clock=now(), raise_on_limit=True):
          self.clamped_calls = max(1, min(sys.maxsize, floor(calls)))
          self.period = period
          self.last_reset = clock()
          self.num_calls = 0
      def __call__(self, func):
          def wrapper(*args, **kargs):
              period_remaining = self.period - (self.clock() - self.last_reset)
              if period_remaining <= 0:
                  self.num_calls = 0
                  self.last_reset = self.clock()
              self.num_calls += 1
              if self.num_calls > self.clamped_calls:
                  if self.raise_on_limit:
                      raise RateLimitException('too many calls', period_remaining)
                  return
              return func(*args, **kargs)
          return wrapper
  limits = RateLimitDecorator
  \<close>
  The notebook leaves \<^verbatim>\<open>raise_on_limit\<close> at its default. The state of the decorator is
  a record that is passed along; the clock is read from the world, and the times are
  exact rationals.
\<close>

record limiter =
  clamped_calls :: int
  period :: rat
  last_reset :: rat
  num_calls :: int

definition maxsize :: int where
  "maxsize = 2 ^ 63 - 1"

definition limits :: "int \<Rightarrow> rat \<Rightarrow> rat \<Rightarrow> limiter" where
  "limits calls per t =
     \<lparr>clamped_calls = max 1 (min maxsize calls), period = per, last_reset = t, num_calls = 0\<rparr>"

definition admit :: "limiter \<Rightarrow> rat \<Rightarrow> (py_error + unit) \<times> limiter" where
  "admit L t =
     (let period_remaining = period L - (t - last_reset L);
          L1 = (if period_remaining \<le> 0 then L\<lparr>last_reset := t, num_calls := 0\<rparr> else L);
          L2 = L1\<lparr>num_calls := num_calls L1 + 1\<rparr>
      in if num_calls L2 > clamped_calls L2
         then (Inl (RateLimitException period_remaining), L2)
         else (Inr (), L2))"

text \<open>
  A decorated function: the wrapper runs its admission step on the decorator's state at
  the present time, and calls the function only when that step raised nothing. The
  admission step is an argument, so that what does not depend on it is proved for any.
\<close>

definition limited ::
  "('l \<Rightarrow> rat \<Rightarrow> (py_error + unit) \<times> 'l) \<Rightarrow> ('a \<Rightarrow> world \<Rightarrow> (py_error + 'b) \<times> world)
     \<Rightarrow> 'a \<Rightarrow> 'l \<times> world \<Rightarrow> (py_error + 'b) \<times> 'l \<times> world" where
  "limited adm f x = (\<lambda>(L, w).
     (case adm L (now w) of
        (Inl e, L') \<Rightarrow> (Inl e, L', w)
      | (Inr _, L') \<Rightarrow> (case f x w of (r, w') \<Rightarrow> (r, L', w'))))"

subsection \<open>The enrichment cell\<close>

text \<open>
  \<^verbatim>\<open>
  @limits(calls=20, period=1)
  def get_rna_data(rnacentral_id):
      url = f"https://rnacentral.org/api/v1/rna/{rnacentral_id}"
      response = requests.get(url)
      return response.json()

  r = de_data["urs_taxid"].progress_map(get_rna_data)
  rnacentral_data = pd.DataFrame(list(r))
  \<close>
  \<open>get_rna_data_body\<close> is the function as written, \<open>get_rna_data\<close> the decorated one.
  \<open>progress_map\<close> calls the function on the elements of the column in their order and
  collects the values it returned in that order; an exception ends it.
  \<open>query_rnacentral\<close> is the cell: the decorator is created, then the column is mapped.

  pandas infers a dtype for the Series of the results. A Series that holds a \<^verbatim>\<open>dict\<close>, as
  the answers of the API are, a \<^verbatim>\<open>list\<close> or a \<^verbatim>\<open>str\<close> keeps its values as they are;
  scalars alone can come back converted (\<^verbatim>\<open>null\<close> as NaN, an \<^verbatim>\<open>int\<close> beside it as a
  \<^verbatim>\<open>float\<close>). The inference is not modelled: the list of results stands for
  \<^verbatim>\<open>list(r)\<close> where the bodies are JSON objects, and what is stated of the requests, of
  the decorator's state and of exceptions does not depend on it.
\<close>

definition rna_url :: "string \<Rightarrow> string" where
  "rna_url rnacentral_id = ''https://rnacentral.org/api/v1/rna/'' @ rnacentral_id"

definition get_rna_data_body :: "network \<Rightarrow> string \<Rightarrow> world \<Rightarrow> (py_error + json) \<times> world" where
  "get_rna_data_body net rnacentral_id w =
     (case requests_get net (rna_url rnacentral_id) w of
        (Inl e, w') \<Rightarrow> (Inl e, w')
      | (Inr resp, w') \<Rightarrow> (response_json resp, w'))"

definition get_rna_data ::
  "network \<Rightarrow> string \<Rightarrow> limiter \<times> world \<Rightarrow> (py_error + json) \<times> limiter \<times> world" where
  "get_rna_data net = limited admit (get_rna_data_body net)"

fun progress_map :: "('a \<Rightarrow> 's \<Rightarrow> (py_error + 'b) \<times> 's) \<Rightarrow> 'a list \<Rightarrow> 's \<Rightarrow> (py_error + 'b list) \<times> 's" where
  "progress_map f [] s = (Inr [], s)"
| "progress_map f (x # xs) s =
     (case f x s of
        (Inl e, s') \<Rightarrow> (Inl e, s')
      | (Inr y, s') \<Rightarrow>
          (case progress_map f xs s' of
             (Inl e, s'') \<Rightarrow> (Inl e, s'')
           | (Inr ys, s'') \<Rightarrow> (Inr (y # ys), s'')))"

definition query_rnacentral ::
  "network \<Rightarrow> 'a de_row_scheme list \<Rightarrow> world \<Rightarrow> (py_error + json list) \<times> limiter \<times> world" where
  "query_rnacentral net de_data w =
     progress_map (get_rna_data net) (map urs_taxid de_data) (limits 20 1 (now w), w)"

text \<open>The number of requests of a log that started in the interval \<open>(t - d, t]\<close>.\<close>

definition started_within :: "rat \<Rightarrow> rat \<Rightarrow> (rat \<times> string) list \<Rightarrow> nat" where
  "started_within d t reqs = length (filter (\<lambda>(s, url). t - d < s \<and> s \<le> t) reqs)"

subsection \<open>The publication lookup\<close>

text \<open>
  \<^verbatim>\<open>
  @limits(calls=20, period=1)
  def get_publications(genes):
      format_gene_query = ['job_id:"{}"'.format(gene) for gene in genes]
      url = f"https://www.ebi.ac.uk/ebisearch/ws/rest/rnacentral-litscan?query=entry_type:Publication AND ({' OR '.join(format_gene_query)})&fields=title,pmcid&format=json"
      response = requests.get(url)
      r = response.json()
      titles = [hit['fields']['title'][0] for hit in r['entries']]
      pmcids = [hit['fields']['pmcid'][0] for hit in r['entries']]
      links = [f"https://www.ncbi.nlm.nih.gov/pmc/articles/{pmcid}/" for pmcid in pmcids]
      publication_data = pd.DataFrame({"titles": titles, "pmcids": pmcids, "links": links})
      return publication_data
  \<close>
  Subscription and iteration follow Python on every kind of value: a \<^verbatim>\<open>dict\<close> is
  subscripted by a key and raises \<^verbatim>\<open>KeyError\<close> without it, a \<^verbatim>\<open>list\<close> or a \<^verbatim>\<open>str\<close> by a
  position and raises \<^verbatim>\<open>IndexError\<close> when empty, anything else raises \<^verbatim>\<open>TypeError\<close>;
  iterating a \<^verbatim>\<open>dict\<close> gives its keys, iterating a \<^verbatim>\<open>str\<close> its characters.
\<close>

fun getitem_key :: "json \<Rightarrow> string \<Rightarrow> py_error + json" where
  "getitem_key (JObject kvs) k = (case map_of kvs k of None \<Rightarrow> Inl KeyError | Some v \<Rightarrow> Inr v)"
| "getitem_key _ k = Inl TypeError"

fun getitem_0 :: "json \<Rightarrow> py_error + json" where
  "getitem_0 (JArray []) = Inl IndexError"
| "getitem_0 (JArray (x # xs)) = Inr x"
| "getitem_0 (JString []) = Inl IndexError"
| "getitem_0 (JString (c # cs)) = Inr (JString [c])"
| "getitem_0 (JObject kvs) = Inl KeyError"
| "getitem_0 _ = Inl TypeError"

fun py_iter :: "json \<Rightarrow> py_error + json list" where
  "py_iter (JArray xs) = Inr xs"
| "py_iter (JObject kvs) = Inr (map (\<lambda>kv. JString (fst kv)) kvs)"
| "py_iter (JString s) = Inr (map (\<lambda>c. JString [c]) s)"
| "py_iter _ = Inl TypeError"

text \<open>A list comprehension whose element expression can raise: the first exception ends it.\<close>

fun comprehension :: "('a \<Rightarrow> py_error + 'b) \<Rightarrow> 'a list \<Rightarrow> py_error + 'b list" where
  "comprehension f [] = Inr []"
| "comprehension f (x # xs) =
     (case f x of
        Inl e \<Rightarrow> Inl e
      | Inr y \<Rightarrow> (case comprehension f xs of Inl e \<Rightarrow> Inl e | Inr ys \<Rightarrow> Inr (y # ys)))"

text \<open>\<^verbatim>\<open>hit['fields'][name][0]\<close>\<close>

definition first_of_field :: "string \<Rightarrow> json \<Rightarrow> py_error + json" where
  "first_of_field name hit =
     (case getitem_key hit ''fields'' of
        Inl e \<Rightarrow> Inl e
      | Inr fs \<Rightarrow> (case getitem_key fs name of Inl e \<Rightarrow> Inl e | Inr v \<Rightarrow> getitem_0 v))"

text \<open>\<^verbatim>\<open>[hit['fields'][name][0] for hit in r['entries']]\<close>\<close>

definition firsts_of_entries :: "string \<Rightarrow> json \<Rightarrow> py_error + json list" where
  "firsts_of_entries name r =
     (case getitem_key r ''entries'' of
        Inl e \<Rightarrow> Inl e
      | Inr entries \<Rightarrow>
          (case py_iter entries of Inl e \<Rightarrow> Inl e | Inr hits \<Rightarrow> comprehension (first_of_field name) hits))"

fun join :: "string \<Rightarrow> string list \<Rightarrow> string" where
  "join sep [] = []"
| "join sep [x] = x"
| "join sep (x # y # ys) = x @ sep @ join sep (y # ys)"

definition format_gene_query :: "string list \<Rightarrow> string list" where
  "format_gene_query genes = map (\<lambda>gene. ''job_id:'' @ [CHR 0x22] @ gene @ [CHR 0x22]) genes"

definition litscan_url :: "string list \<Rightarrow> string" where
  "litscan_url genes =
     ''https://www.ebi.ac.uk/ebisearch/ws/rest/rnacentral-litscan?query=entry_type:Publication AND (''
     @ join '' OR '' (format_gene_query genes) @ '')&fields=title,pmcid&format=json''"

text \<open>
  A replacement field of an f-string puts a \<^verbatim>\<open>str\<close> in as it is; what it makes of a
  value of another type is Python's \<^verbatim>\<open>format\<close>, a parameter here.
\<close>

definition py_format :: "(json \<Rightarrow> string) \<Rightarrow> json \<Rightarrow> string" where
  "py_format fmt v = (case v of JString s \<Rightarrow> s | _ \<Rightarrow> fmt v)"

definition pmc_link :: "(json \<Rightarrow> string) \<Rightarrow> json \<Rightarrow> string" where
  "pmc_link fmt pmcid = ''https://www.ncbi.nlm.nih.gov/pmc/articles/'' @ py_format fmt pmcid @ ''/''"

text \<open>
  The data frame made of the three columns; its rows are read off side by side.
  \<^verbatim>\<open>pd.DataFrame\<close> infers a dtype for each column: a column of strings keeps its values
  as they are, other scalars can come back converted (\<^verbatim>\<open>null\<close> as NaN). The inference
  is not modelled; the columns stand for the frame where titles and identifiers are
  strings.
\<close>

record publication_data =
  titles :: "json list"
  pmcids :: "json list"
  links :: "string list"

definition rows :: "publication_data \<Rightarrow> (json \<times> json \<times> string) list" where
  "rows pd = zip (titles pd) (zip (pmcids pd) (links pd))"

definition publications_of :: "(json \<Rightarrow> string) \<Rightarrow> json \<Rightarrow> py_error + publication_data" where
  "publications_of fmt r =
     (case firsts_of_entries ''title'' r of
        Inl e \<Rightarrow> Inl e
      | Inr ts \<Rightarrow>
          (case firsts_of_entries ''pmcid'' r of
             Inl e \<Rightarrow> Inl e
           | Inr ps \<Rightarrow> Inr \<lparr>titles = ts, pmcids = ps, links = map (pmc_link fmt) ps\<rparr>))"

definition get_publications_body ::
  "(json \<Rightarrow> string) \<Rightarrow> network \<Rightarrow> string list \<Rightarrow> world \<Rightarrow> (py_error + publication_data) \<times> world" where
  "get_publications_body fmt net genes w =
     (case requests_get net (litscan_url genes) w of
        (Inl e, w') \<Rightarrow> (Inl e, w')
      | (Inr resp, w') \<Rightarrow>
          (case response_json resp of Inl e \<Rightarrow> (Inl e, w') | Inr r \<Rightarrow> (publications_of fmt r, w')))"

definition get_publications ::
  "(json \<Rightarrow> string) \<Rightarrow> network \<Rightarrow> string list \<Rightarrow> limiter \<times> world
     \<Rightarrow> (py_error + publication_data) \<times> limiter \<times> world" where
  "get_publications fmt net = limited admit (get_publications_body fmt net)"

text \<open>The cell: the decorator is created, then the function is called once.\<close>

definition lookup_publications ::
  "(json \<Rightarrow> string) \<Rightarrow> network \<Rightarrow> string list \<Rightarrow> world \<Rightarrow> (py_error + publication_data) \<times> limiter \<times> world" where
  "lookup_publications fmt net genes w = get_publications fmt net genes (limits 20 1 (now w), w)"

subsection \<open>Fake endpoints and tables for the examples\<close>

text \<open>
  A fake endpoint answers every request after a fixed time with what a function of the
  URL serves. \<open>serve_A\<close> knows the identifier \<open>A\<close> and answers anything else with a 404
  whose body is JSON. \<open>litscan_answer\<close> is an answer of the search endpoint with two
  entries. \<open>bursty_endpoint\<close> takes half a second for the first and for the twentieth
  request and no time for any other. \<open>serve_gateway\<close> knows the identifier \<open>A\<close> and
  answers anything else with a 502 whose body is not JSON.
\<close>

definition fake_endpoint :: "rat \<Rightarrow> (string \<Rightarrow> response option) \<Rightarrow> network" where
  "fake_endpoint latency serve = (\<lambda>w url. (latency, serve url))"

definition mirna_record :: json where
  "mirna_record =
     JObject [(''rna_type'', JString ''miRNA''), (''genes'', JArray [JString ''g1'', JString ''g2''])]"

definition not_found :: json where
  "not_found = JObject [(''detail'', JString ''Not found.'')]"

definition serve_A :: "string \<Rightarrow> response option" where
  "serve_A url =
     (if url = ''https://rnacentral.org/api/v1/rna/A''
      then Some \<lparr>status_code = 200, json_body = Some mirna_record\<rparr>
      else Some \<lparr>status_code = 404, json_body = Some not_found\<rparr>)"


definition start :: world where
  "start = \<lparr>now = 0, requests = []\<rparr>"

definition litscan_answer :: json where
  "litscan_answer = JObject [(''hitCount'', JInt 2), (''entries'', JArray
     [JObject [(''id'', JString ''1''), (''fields'', JObject
        [(''title'', JArray [JString ''First title'']), (''pmcid'', JArray [JString ''PMC111'']) ])],
      JObject [(''id'', JString ''2''), (''fields'', JObject
        [(''title'', JArray [JString ''Second title'']), (''pmcid'', JArray [JString ''PMC222'']) ])]])]"

definition serve_litscan :: "string \<Rightarrow> response option" where
  "serve_litscan url = Some \<lparr>status_code = 200, json_body = Some litscan_answer\<rparr>"

definition row_A :: de_row where
  "row_A = \<lparr>urs_taxid = ''A'', pvalue = Finite (1 / 1000)\<rparr>"

definition bursty_endpoint :: network where
  "bursty_endpoint = (\<lambda>w url.
     (if length (requests w) = 0 \<or> length (requests w) = 19 then 1 / 2 else 0, serve_A url))"



subsection \<open>Identifiers whose call succeeds\<close>


subsection \<open>An invariant of the decorator over a run\<close>

text \<open>
  What holds of the decorator's state and the log of requests between two calls of a run
  that started with an empty log: the period is positive and the bound at least one; the
  window began no later than now and counts at most the bound; no request started after
  now; every request that started in the window started less than a period after its
  beginning, and they are at most as many as the count; the requests that started less
  than a period before the window are at most the bound; and the requests that started
  in any interval \<open>(t - period, t]\<close> are at most twice the bound.
\<close>

definition window_inv :: "limiter \<Rightarrow> world \<Rightarrow> bool" where
  "window_inv L w \<longleftrightarrow>
     0 < period L \<and> 1 \<le> clamped_calls L \<and> last_reset L \<le> now w \<and>
     0 \<le> num_calls L \<and> num_calls L \<le> clamped_calls L \<and>
     (\<forall>q \<in> set (requests w). fst q \<le> now w) \<and>
     (\<forall>q \<in> set (requests w). last_reset L \<le> fst q \<longrightarrow> fst q < last_reset L + period L) \<and>
     int (length (filter (\<lambda>q. last_reset L \<le> fst q) (requests w))) \<le> num_calls L \<and>
     int (length (filter (\<lambda>q. last_reset L - period L < fst q \<and> fst q < last_reset L) (requests w)))
       \<le> clamped_calls L \<and>
     (\<forall>t. int (length (filter (\<lambda>q. t - period L < fst q \<and> fst q \<le> t) (requests w)))
       \<le> 2 * clamped_calls L)"

subsection \<open>Properties of the significance filter\<close>

lemma getitem_mask_map:
  "getitem_mask df (map p df) = filter p df"
  by (induction df) (simp_all add: getitem_mask_def)

lemma significant_filter:
  "significant df = filter (\<lambda>r. float_lt (pvalue r) threshold) df"
proof -
  have "series_lt (column_pvalue df) threshold = map (\<lambda>r. float_lt (pvalue r) threshold) df"
    by (simp add: series_lt_def column_pvalue_def)
  then show ?thesis
    by (simp add: significant_def getitem_mask_map)
qed

lemma float_lt_threshold:
  "float_lt x threshold \<longleftrightarrow> x = NegInf \<or> (\<exists>q. x = Finite q \<and> q < 1 / 100)"
  by (cases x) (simp_all add: threshold_def)

lemma significant_iff:
  "r \<in> set (significant df) \<longleftrightarrow>
     r \<in> set df \<and> (pvalue r = NegInf \<or> (\<exists>q. pvalue r = Finite q \<and> q < 1 / 100))"
  by (simp add: significant_filter float_lt_threshold)

lemma significant_example:
  "significant [\<lparr>urs_taxid = ''A'', pvalue = Finite (1 / 1000)\<rparr>,
                \<lparr>urs_taxid = ''B'', pvalue = Finite (1 / 2)\<rparr>]
   = [\<lparr>urs_taxid = ''A'', pvalue = Finite (1 / 1000)\<rparr>]"
  by (simp add: significant_filter threshold_def)

text \<open>
  C5: the filter keeps, in their order, exactly the rows whose \<^verbatim>\<open>pvalue\<close> is below the
  threshold: every row it keeps is a row of the table with a \<^verbatim>\<open>pvalue\<close> that is a
  number below \<open>1/100\<close> (or minus infinity), every such row of the table is kept, and of
  the table with row \<open>A\<close> at \<open>0.001\<close> and row \<open>B\<close> at \<open>0.5\<close> only row \<open>A\<close> is kept.
\<close>

theorem significant_retains_exactly:
  "significant df = filter (\<lambda>r. float_lt (pvalue r) threshold) df
   \<and> (\<forall>r \<in> set (significant df).
         r \<in> set df \<and> (pvalue r = NegInf \<or> (\<exists>q. pvalue r = Finite q \<and> q < 1 / 100)))
   \<and> (\<forall>r \<in> set df. pvalue r = NegInf \<or> (\<exists>q. pvalue r = Finite q \<and> q < 1 / 100)
         \<longrightarrow> r \<in> set (significant df))
   \<and> significant [\<lparr>urs_taxid = ''A'', pvalue = Finite (1 / 1000)\<rparr>,
                   \<lparr>urs_taxid = ''B'', pvalue = Finite (1 / 2)\<rparr>]
       = [\<lparr>urs_taxid = ''A'', pvalue = Finite (1 / 1000)\<rparr>]"
proof (intro conjI ballI impI)
  show "significant df = filter (\<lambda>r. float_lt (pvalue r) threshold) df"
    by (rule significant_filter)
next
  fix r assume "r \<in> set (significant df)"
  then show "r \<in> set df" by (simp add: significant_iff)
next
  fix r assume "r \<in> set (significant df)"
  then show "pvalue r = NegInf \<or> (\<exists>q. pvalue r = Finite q \<and> q < 1 / 100)"
    by (simp add: significant_iff)
next
  fix r assume "r \<in> set df" "pvalue r = NegInf \<or> (\<exists>q. pvalue r = Finite q \<and> q < 1 / 100)"
  then show "r \<in> set (significant df)" by (simp add: significant_iff)
next
  show "significant [\<lparr>urs_taxid = ''A'', pvalue = Finite (1 / 1000)\<rparr>,
                     \<lparr>urs_taxid = ''B'', pvalue = Finite (1 / 2)\<rparr>]
        = [\<lparr>urs_taxid = ''A'', pvalue = Finite (1 / 1000)\<rparr>]"
    by (rule significant_example)
qed

theorem significant_retains_exactly_witness:
  "\<lparr>urs_taxid = ''A'', pvalue = Finite (1 / 1000)\<rparr>
     \<in> set (significant [\<lparr>urs_taxid = ''A'', pvalue = Finite (1 / 1000)\<rparr>,
                          \<lparr>urs_taxid = ''B'', pvalue = Finite (1 / 2)\<rparr>])
   \<and> \<lparr>urs_taxid = ''B'', pvalue = Finite (1 / 2)\<rparr>
     \<notin> set (significant [\<lparr>urs_taxid = ''A'', pvalue = Finite (1 / 1000)\<rparr>,
                          \<lparr>urs_taxid = ''B'', pvalue = Finite (1 / 2)\<rparr>])"
proof -
  let ?T = "[\<lparr>urs_taxid = ''A'', pvalue = Finite (1 / 1000)\<rparr>,
             \<lparr>urs_taxid = ''B'', pvalue = Finite (1 / 2)\<rparr>]"
  from significant_retains_exactly [of ?T]
  have "significant ?T = [\<lparr>urs_taxid = ''A'', pvalue = Finite (1 / 1000)\<rparr>]"
    by (elim conjE)
  then show ?thesis by simp
qed

text \<open>
  C10: a row whose \<^verbatim>\<open>pvalue\<close> is NaN is never kept: the comparison of NaN with the
  threshold is false, no row of the filtered table has a NaN \<^verbatim>\<open>pvalue\<close>, and every row
  of the table with a NaN \<^verbatim>\<open>pvalue\<close> is absent from the filtered table.
\<close>

theorem significant_excludes_nan:
  "\<not> float_lt NaN threshold
   \<and> (\<forall>r \<in> set (significant df). pvalue r \<noteq> NaN)
   \<and> (\<forall>r \<in> set df. pvalue r = NaN \<longrightarrow> r \<notin> set (significant df))"
proof -
  have nan: "\<not> float_lt NaN threshold" by simp
  have kept: "pvalue r \<noteq> NaN" if "r \<in> set (significant df)" for r
  proof -
    from that have "float_lt (pvalue r) threshold" by (simp add: significant_filter)
    then show ?thesis by (cases "pvalue r") simp_all
  qed
  have dropped: "r \<notin> set (significant df)" if "pvalue r = NaN" for r
    using that kept by blast
  from nan kept dropped show ?thesis by blast
qed

theorem significant_excludes_nan_witness:
  "\<lparr>urs_taxid = ''C'', pvalue = NaN\<rparr>
     \<notin> set (significant [\<lparr>urs_taxid = ''A'', pvalue = Finite (1 / 1000)\<rparr>,
                          \<lparr>urs_taxid = ''C'', pvalue = NaN\<rparr>])
   \<and> \<lparr>urs_taxid = ''C'', pvalue = NaN\<rparr>
     \<in> set [\<lparr>urs_taxid = ''A'', pvalue = Finite (1 / 1000)\<rparr>,
             \<lparr>urs_taxid = ''C'', pvalue = NaN\<rparr>]"
  using significant_excludes_nan
    [of "[\<lparr>urs_taxid = ''A'', pvalue = Finite (1 / 1000)\<rparr>,
          \<lparr>urs_taxid = ''C'', pvalue = NaN\<rparr>]"]
  by simp

subsection \<open>Requests, decorated calls and the run over the column\<close>

lemma requests_get_eq:
  "requests_get net url w =
     ((case snd (net w url) of None \<Rightarrow> Inl RequestException | Some resp \<Rightarrow> Inr resp),
      \<lparr>now = now w + fst (net w url), requests = requests w @ [(now w, url)]\<rparr>)"
  by (simp add: requests_get_def Let_def split: prod.splits option.splits)

lemma get_rna_data_body_eq:
  "get_rna_data_body net ident w =
     ((case snd (net w (rna_url ident)) of
         None \<Rightarrow> Inl RequestException
       | Some resp \<Rightarrow> response_json resp),
      \<lparr>now = now w + fst (net w (rna_url ident)),
        requests = requests w @ [(now w, rna_url ident)]\<rparr>)"
  by (simp add: get_rna_data_body_def requests_get_eq split: option.splits)

lemma limited_rejected:
  "adm L (now w) = (Inl e, L') \<Longrightarrow> limited adm f x (L, w) = (Inl e, L', w)"
  by (simp add: limited_def)

lemma limited_admitted:
  "adm L (now w) = (Inr u, L') \<Longrightarrow> limited adm f x (L, w) = (fst (f x w), L', snd (f x w))"
  by (simp add: limited_def split: prod.splits)

lemma limited_cases:
  obtains (rejected) e L' where "adm L (now w) = (Inl e, L')" "limited adm f x (L, w) = (Inl e, L', w)"
  | (admitted) L' where "adm L (now w) = (Inr (), L')"
      "limited adm f x (L, w) = (fst (f x w), L', snd (f x w))"
proof (cases "adm L (now w)")
  case (Pair a L')
  show ?thesis
  proof (cases a)
    case (Inl e)
    with Pair rejected limited_rejected [of adm L w e L' f x] show ?thesis by simp
  next
    case (Inr u)
    with Pair admitted limited_admitted [of adm L w u L' f x] show ?thesis by simp
  qed
qed

subsection \<open>The admission step\<close>

lemma admit_eq:
  "admit L t =
     (if period L - (t - last_reset L) \<le> 0
      then (if 1 > clamped_calls L then Inl (RateLimitException (period L - (t - last_reset L))) else Inr (),
            L\<lparr>last_reset := t, num_calls := 1\<rparr>)
      else (if num_calls L + 1 > clamped_calls L
            then Inl (RateLimitException (period L - (t - last_reset L))) else Inr (),
            L\<lparr>num_calls := num_calls L + 1\<rparr>))"
  by (simp add: admit_def Let_def)





lemma get_rna_data_first_call:
  "get_rna_data net ident (limits 20 1 (now w), w) =
     (fst (get_rna_data_body net ident w),
      \<lparr>clamped_calls = 20, period = 1, last_reset = now w, num_calls = 1\<rparr>,
      snd (get_rna_data_body net ident w))"
  by (simp add: get_rna_data_def limited_def admit_eq limits_def maxsize_def split: prod.splits)

lemma get_rna_data_body_answered:
  "net w (rna_url ident) = (d, Some resp) \<Longrightarrow>
     fst (get_rna_data_body net ident w) = response_json resp"
  by (simp add: get_rna_data_body_eq)

lemma get_rna_data_admitted:
  "admit L (now w) = (Inr (), L') \<Longrightarrow>
     get_rna_data net ident (L, w)
       = (fst (get_rna_data_body net ident w), L', snd (get_rna_data_body net ident w))"
  unfolding get_rna_data_def by (rule limited_admitted)

subsection \<open>The enrichment cell: results\<close>

text \<open>
  C1: the mapper is to return one record for every identifier, in the order of the
  identifiers, when every remote call succeeds. It does not for a table of 36 rows whose
  every request is answered with a 200 and a JSON object after 1/32 s: the twenty-first
  call arrives 5/8 s after the window of the decorator began, the decorator raises
  \<^verbatim>\<open>RateLimitException\<close>, and the run ends after 20 requests without any record. With
  answers after 1/16 s the same table gets its 36 records in order.
\<close>

theorem thirty_six_rows_raise:
  "query_rnacentral (fake_endpoint (1 / 32) serve_A) (replicate 36 row_A) start
     = (Inl (RateLimitException (3 / 8)),
        \<lparr>clamped_calls = 20, period = 1, last_reset = 0, num_calls = 21\<rparr>,
        \<lparr>now = 5 / 8,
          requests = map (\<lambda>k. (rat_of_nat k / 32, ''https://rnacentral.org/api/v1/rna/A'')) [0..<20]\<rparr>)
   \<and> fst (query_rnacentral (fake_endpoint (1 / 16) serve_A) (replicate 36 row_A) start)
     = Inr (replicate 36 mirna_record)"
  by code_simp

text \<open>
  C6: the record returned for an identifier is the decoded body of the response, as it
  is: by the function as written, by the decorated function whenever its call is
  admitted, and by the first call after decoration. For identifier \<open>A\<close> and the body
  \<^verbatim>\<open>{"rna_type":"miRNA","genes":["g1","g2"]}\<close> the result is that object.
\<close>

theorem get_rna_data_returns_decoded_body:
  "net w (rna_url ident) = (d, Some resp) \<Longrightarrow> json_body resp = Some j \<Longrightarrow>
     fst (get_rna_data_body net ident w) = Inr j
     \<and> (\<forall>L L'. admit L (now w) = (Inr (), L') \<longrightarrow> fst (get_rna_data net ident (L, w)) = Inr j)
     \<and> fst (get_rna_data net ident (limits 20 1 (now w), w)) = Inr j"
proof -
  assume "net w (rna_url ident) = (d, Some resp)" "json_body resp = Some j"
  then have body: "fst (get_rna_data_body net ident w) = Inr j"
    by (simp add: get_rna_data_body_answered response_json_def)
  then show ?thesis
    by (simp add: get_rna_data_first_call get_rna_data_admitted)
qed

theorem get_rna_data_returns_decoded_body_witness:
  "fst (get_rna_data_body (fake_endpoint (1 / 10) serve_A) ''A'' start) = Inr mirna_record
   \<and> fst (get_rna_data (fake_endpoint (1 / 10) serve_A) ''A'' (limits 20 1 (now start), start))
       = Inr mirna_record"
proof -
  have answer: "fake_endpoint (1 / 10) serve_A start (rna_url ''A'')
      = (1 / 10, Some \<lparr>status_code = 200, json_body = Some mirna_record\<rparr>)"
    by (simp add: fake_endpoint_def serve_A_def rna_url_def)
  have body: "json_body \<lparr>status_code = 200, json_body = Some mirna_record\<rparr> = Some mirna_record"
    by simp
  from get_rna_data_returns_decoded_body
    [where net = "fake_endpoint (1 / 10) serve_A" and w = start and ident = "''A''", OF answer body]
  show ?thesis by blast
qed

text \<open>
  C9: no status check is made: whatever the status code of the response, a body that
  decodes is returned as the record, and \<^verbatim>\<open>response.json()\<close> does not depend on the
  status code. A 404 with a JSON body gives that body as the record.
\<close>

theorem get_rna_data_no_status_check:
  "net w (rna_url ident) = (d, Some \<lparr>status_code = s, json_body = Some j\<rparr>) \<Longrightarrow>
     fst (get_rna_data_body net ident w) = Inr j
     \<and> fst (get_rna_data net ident (limits 20 1 (now w), w)) = Inr j
     \<and> response_json (resp\<lparr>status_code := s'\<rparr>) = response_json resp"
proof -
  assume "net w (rna_url ident) = (d, Some \<lparr>status_code = s, json_body = Some j\<rparr>)"
  then have body: "fst (get_rna_data_body net ident w) = Inr j"
    by (simp add: get_rna_data_body_answered response_json_def)
  then show ?thesis
    by (simp add: get_rna_data_first_call response_json_def)
qed

theorem get_rna_data_no_status_check_witness:
  "fst (get_rna_data_body (fake_endpoint (1 / 10) serve_A) ''B'' start) = Inr not_found
   \<and> fst (get_rna_data (fake_endpoint (1 / 10) serve_A) ''B'' (limits 20 1 (now start), start))
       = Inr not_found"
proof -
  have answer: "fake_endpoint (1 / 10) serve_A start (rna_url ''B'')
      = (1 / 10, Some \<lparr>status_code = 404, json_body = Some not_found\<rparr>)"
    by (simp add: fake_endpoint_def serve_A_def rna_url_def)
  from get_rna_data_no_status_check
    [where net = "fake_endpoint (1 / 10) serve_A" and w = start and ident = "''B''", OF answer]
  show ?thesis by blast
qed








subsection \<open>The publication lookup: one record per entry\<close>

lemma comprehension_map:
  "map f xs = map Inr ys \<Longrightarrow> comprehension f xs = Inr ys"
proof (induction xs arbitrary: ys)
  case Nil
  then show ?case by simp
next
  case (Cons x xs)
  then obtain y ys' where "ys = y # ys'" "f x = Inr y" "map f xs = map Inr ys'"
    by (cases ys) auto
  with Cons.IH show ?case by simp
qed

lemma get_publications_first_call:
  "lookup_publications fmt net genes w =
     (fst (get_publications_body fmt net genes w),
      \<lparr>clamped_calls = 20, period = 1, last_reset = now w, num_calls = 1\<rparr>,
      snd (get_publications_body fmt net genes w))"
  by (simp add: lookup_publications_def get_publications_def limited_def admit_eq limits_def
      maxsize_def split: prod.splits)

lemma publications_of_entries:
  assumes "getitem_key r ''entries'' = Inr (JArray es)"
    and "map (first_of_field ''title'') es = map Inr ts"
    and "map (first_of_field ''pmcid'') es = map Inr ps"
  shows "publications_of fmt r = Inr \<lparr>titles = ts, pmcids = ps, links = map (pmc_link fmt) ps\<rparr>"
  using assms by (simp add: publications_of_def firsts_of_entries_def comprehension_map)

lemma first_of_field_entry:
  assumes "map_of kvs ''fields'' = Some (JObject fs)" and "map_of fs name = Some (JArray (v # rest))"
  shows "first_of_field name (JObject kvs) = Inr v"
  using assms by (simp add: first_of_field_def)

text \<open>
  C7: when the search endpoint answers with an object whose \<^verbatim>\<open>entries\<close> is a list of
  \<open>n\<close> entries, each an object whose \<^verbatim>\<open>fields\<close> has a \<^verbatim>\<open>title\<close> and a \<^verbatim>\<open>pmcid\<close> that are
  lists beginning with a string, the lookup returns \<open>n\<close> records in the order of the
  entries; record \<open>i\<close> has the first title and the first \<^verbatim>\<open>pmcid\<close> of entry \<open>i\<close> and the
  link \<^verbatim>\<open>https://www.ncbi.nlm.nih.gov/pmc/articles/{pmcid}/\<close> made of that \<^verbatim>\<open>pmcid\<close>.
\<close>

theorem get_publications_one_record_per_entry:
  assumes "net w (litscan_url genes) = (d, Some resp)"
    and "json_body resp = Some (JObject obj)"
    and "map_of obj ''entries'' = Some (JArray es)"
    and "length ts = length es" and "length ps = length es"
    and "\<forall>i < length es. \<exists>kvs fs trest prest.
           es ! i = JObject kvs \<and> map_of kvs ''fields'' = Some (JObject fs)
           \<and> map_of fs ''title'' = Some (JArray (JString (ts ! i) # trest))
           \<and> map_of fs ''pmcid'' = Some (JArray (JString (ps ! i) # prest))"
  shows "\<exists>pd. fst (lookup_publications fmt net genes w) = Inr pd
     \<and> length (rows pd) = length es
     \<and> rows pd = map (\<lambda>i. (JString (ts ! i), JString (ps ! i),
                           ''https://www.ncbi.nlm.nih.gov/pmc/articles/'' @ ps ! i @ ''/''))
                    [0..<length es]"
proof -
  let ?ts = "map JString ts" and ?ps = "map JString ps"
  let ?pd = "\<lparr>titles = ?ts, pmcids = ?ps, links = map (pmc_link fmt) ?ps\<rparr>"
  have title: "first_of_field ''title'' (es ! i) = Inr (JString (ts ! i))"
    and pmcid: "first_of_field ''pmcid'' (es ! i) = Inr (JString (ps ! i))" if "i < length es" for i
  proof -
    from assms(6) that obtain kvs fs trest prest where
      "es ! i = JObject kvs" "map_of kvs ''fields'' = Some (JObject fs)"
      "map_of fs ''title'' = Some (JArray (JString (ts ! i) # trest))"
      "map_of fs ''pmcid'' = Some (JArray (JString (ps ! i) # prest))"
      by blast
    then show "first_of_field ''title'' (es ! i) = Inr (JString (ts ! i))"
      and "first_of_field ''pmcid'' (es ! i) = Inr (JString (ps ! i))"
      by (simp_all add: first_of_field_entry)
  qed
  have mt: "map (first_of_field ''title'') es = map Inr ?ts"
    using assms(4) title by (intro nth_equalityI) simp_all
  have mp: "map (first_of_field ''pmcid'') es = map Inr ?ps"
    using assms(5) pmcid by (intro nth_equalityI) simp_all
  have entries: "getitem_key (JObject obj) ''entries'' = Inr (JArray es)"
    using assms(3) by simp
  have "fst (get_publications_body fmt net genes w) = Inr ?pd"
    using assms(1,2) publications_of_entries [OF entries mt mp, of fmt]
    by (simp add: get_publications_body_def requests_get_eq response_json_def)
  then have run: "fst (lookup_publications fmt net genes w) = Inr ?pd"
    by (simp add: get_publications_first_call)
  have rows: "rows ?pd = map (\<lambda>i. (JString (ts ! i), JString (ps ! i),
                           ''https://www.ncbi.nlm.nih.gov/pmc/articles/'' @ ps ! i @ ''/''))
                    [0..<length es]"
    using assms(4,5) by (intro nth_equalityI) (simp_all add: rows_def pmc_link_def py_format_def)
  from run rows show ?thesis by simp
qed

theorem get_publications_one_record_per_entry_witness:
  "\<exists>pd. fst (lookup_publications (\<lambda>v. []) (fake_endpoint (1 / 8) serve_litscan) [''dme-mir-4968''] start)
         = Inr pd
     \<and> rows pd
         = [(JString ''First title'', JString ''PMC111'', ''https://www.ncbi.nlm.nih.gov/pmc/articles/PMC111/''),
            (JString ''Second title'', JString ''PMC222'', ''https://www.ncbi.nlm.nih.gov/pmc/articles/PMC222/'')]"
proof -
  let ?e1 = "JObject [(''id'', JString ''1''), (''fields'', JObject
        [(''title'', JArray [JString ''First title'']), (''pmcid'', JArray [JString ''PMC111'']) ])]"
  let ?e2 = "JObject [(''id'', JString ''2''), (''fields'', JObject
        [(''title'', JArray [JString ''Second title'']), (''pmcid'', JArray [JString ''PMC222'']) ])]"
  let ?obj = "[(''hitCount'', JInt 2), (''entries'', JArray [?e1, ?e2])]"
  let ?ts = "[''First title'', ''Second title'']"
  let ?ps = "[''PMC111'', ''PMC222'']"
  have answer: "fake_endpoint (1 / 8) serve_litscan start (litscan_url [''dme-mir-4968''])
      = (1 / 8, Some \<lparr>status_code = 200, json_body = Some litscan_answer\<rparr>)"
    by (simp add: fake_endpoint_def serve_litscan_def)
  have body: "json_body \<lparr>status_code = 200, json_body = Some litscan_answer\<rparr> = Some (JObject ?obj)"
    by (simp add: litscan_answer_def)
  have entries: "map_of ?obj ''entries'' = Some (JArray [?e1, ?e2])"
    by simp
  have len: "length ?ts = length [?e1, ?e2]" "length ?ps = length [?e1, ?e2]"
    by simp_all
  have shape: "\<forall>i < length [?e1, ?e2]. \<exists>kvs fs trest prest.
           [?e1, ?e2] ! i = JObject kvs \<and> map_of kvs ''fields'' = Some (JObject fs)
           \<and> map_of fs ''title'' = Some (JArray (JString (?ts ! i) # trest))
           \<and> map_of fs ''pmcid'' = Some (JArray (JString (?ps ! i) # prest))"
    by (simp add: less_Suc_eq)
  from get_publications_one_record_per_entry
    [where net = "fake_endpoint (1 / 8) serve_litscan" and w = start and genes = "[''dme-mir-4968'']"
       and fmt = "\<lambda>v. []", OF answer body entries len shape]
  obtain pd where
    "fst (lookup_publications (\<lambda>v. []) (fake_endpoint (1 / 8) serve_litscan) [''dme-mir-4968''] start) = Inr pd"
    "rows pd = map (\<lambda>i. (JString (?ts ! i), JString (?ps ! i),
                           ''https://www.ncbi.nlm.nih.gov/pmc/articles/'' @ ?ps ! i @ ''/''))
                    [0..<length [?e1, ?e2]]"
    by blast
  then show ?thesis by (simp add: upt_rec)
qed

subsection \<open>The decorator: what a call at the limit does\<close>

lemma admit_at_limit:
  "clamped_calls L \<le> num_calls L \<Longrightarrow> t - last_reset L < period L \<Longrightarrow>
     admit L t = (Inl (RateLimitException (period L - (t - last_reset L))), L\<lparr>num_calls := num_calls L + 1\<rparr>)"
  by (simp add: admit_eq)

lemma admit_within_window:
  "num_calls L < clamped_calls L \<Longrightarrow> t - last_reset L < period L \<Longrightarrow>
     admit L t = (Inr (), L\<lparr>num_calls := num_calls L + 1\<rparr>)"
  by (simp add: admit_eq)

lemma admit_new_window:
  "1 \<le> clamped_calls L \<Longrightarrow> period L \<le> t - last_reset L \<Longrightarrow>
     admit L t = (Inr (), L\<lparr>last_reset := t, num_calls := 1\<rparr>)"
  by (simp add: admit_eq)

lemma get_rna_data_rejected:
  "admit L (now w) = (Inl e, L') \<Longrightarrow> get_rna_data net ident (L, w) = (Inl e, L', w)"
  unfolding get_rna_data_def by (rule limited_rejected)

lemma zero_latency_run:
  assumes zero: "\<forall>w url. fst (net w url) = 0"
    and served: "\<forall>w url. \<exists>resp j. snd (net w url) = Some resp \<and> json_body resp = Some j"
  shows "0 < P \<Longrightarrow> 0 \<le> n \<Longrightarrow> n \<le> C \<Longrightarrow> C - n < int (length ids) \<Longrightarrow>
    progress_map (get_rna_data net) ids
      (\<lparr>clamped_calls = C, period = P, last_reset = now w, num_calls = n\<rparr>, w)
    = (Inl (RateLimitException P),
       \<lparr>clamped_calls = C, period = P, last_reset = now w, num_calls = C + 1\<rparr>,
       \<lparr>now = now w, requests = requests w @ map (\<lambda>x. (now w, rna_url x)) (take (nat (C - n)) ids)\<rparr>)"
proof (induction ids arbitrary: n w)
  case Nil
  then show ?case by simp
next
  case (Cons x xs)
  let ?L = "\<lparr>clamped_calls = C, period = P, last_reset = now w, num_calls = n\<rparr>"
  show ?case
  proof (cases "n = C")
    case True
    have "admit ?L (now w) = (Inl (RateLimitException P), ?L\<lparr>num_calls := n + 1\<rparr>)"
      using True Cons.prems(1) admit_at_limit [of ?L "now w"] by simp
    from get_rna_data_rejected [OF this, of net x] True show ?thesis by simp
  next
    case False
    with Cons.prems have lt: "n < C" by simp
    let ?L1 = "\<lparr>clamped_calls = C, period = P, last_reset = now w, num_calls = n + 1\<rparr>"
    let ?w1 = "\<lparr>now = now w, requests = requests w @ [(now w, rna_url x)]\<rparr>"
    have "admit ?L (now w) = (Inr (), ?L\<lparr>num_calls := n + 1\<rparr>)"
      using lt Cons.prems(1) admit_within_window [of ?L "now w"] by simp
    then have adm: "admit ?L (now w) = (Inr (), ?L1)" by simp
    from served obtain resp j where "snd (net w (rna_url x)) = Some resp" "json_body resp = Some j"
      by blast
    with zero have body: "get_rna_data_body net x w = (Inr j, ?w1)"
      by (simp add: get_rna_data_body_eq response_json_def)
    have step: "get_rna_data net x (?L, w) = (Inr j, ?L1, ?w1)"
      using get_rna_data_admitted [OF adm, of net x] body by simp
    have "progress_map (get_rna_data net) xs
      (\<lparr>clamped_calls = C, period = P, last_reset = now ?w1, num_calls = n + 1\<rparr>, ?w1)
      = (Inl (RateLimitException P),
       \<lparr>clamped_calls = C, period = P, last_reset = now ?w1, num_calls = C + 1\<rparr>,
       \<lparr>now = now ?w1, requests = requests ?w1 @ map (\<lambda>x. (now ?w1, rna_url x)) (take (nat (C - (n + 1))) xs)\<rparr>)"
      using Cons.prems lt by (intro Cons.IH) simp_all
    moreover have "take (nat (C - n)) (x # xs) = x # take (nat (C - (n + 1))) xs"
    proof -
      have "nat (C - n) = Suc (nat (C - (n + 1)))" using lt by simp
      then show ?thesis by simp
    qed
    ultimately show ?thesis using step by simp
  qed
qed

lemma get_rna_data_at_limit:
  assumes "clamped_calls L \<le> num_calls L" "now w - last_reset L < period L"
  shows "get_rna_data net ident (L, w)
    = (Inl (RateLimitException (period L - (now w - last_reset L))), L\<lparr>num_calls := num_calls L + 1\<rparr>, w)"
  using get_rna_data_rejected [OF admit_at_limit [OF assms]] .

text \<open>
  What the decorated function does by the count of the window: with 20 calls counted and
  less than a second gone since the window began, it raises \<^verbatim>\<open>RateLimitException\<close> with
  the time left in the window, issues no request and leaves the clock where it was, and
  the exception ends the map; below the count the call is admitted at once, and so is a
  call that arrives a second or more after the window began, which begins a new window.
  Against an endpoint that takes no time and always answers, a table of more than 20
  rows gets 20 requests, then the exception, and no time has passed.
\<close>

lemma get_rna_data_by_count:
  "(clamped_calls L \<le> num_calls L \<and> now w - last_reset L < period L \<longrightarrow>
      get_rna_data net ident (L, w)
        = (Inl (RateLimitException (period L - (now w - last_reset L))),
           L\<lparr>num_calls := num_calls L + 1\<rparr>, w)
      \<and> progress_map (get_rna_data net) (ident # rest) (L, w)
        = (Inl (RateLimitException (period L - (now w - last_reset L))),
           L\<lparr>num_calls := num_calls L + 1\<rparr>, w))
   \<and> (num_calls L < clamped_calls L \<and> now w - last_reset L < period L \<longrightarrow>
      get_rna_data net ident (L, w)
        = (fst (get_rna_data_body net ident w), L\<lparr>num_calls := num_calls L + 1\<rparr>,
           snd (get_rna_data_body net ident w)))
   \<and> (1 \<le> clamped_calls L \<and> period L \<le> now w - last_reset L \<longrightarrow>
      get_rna_data net ident (L, w)
        = (fst (get_rna_data_body net ident w), L\<lparr>last_reset := now w, num_calls := 1\<rparr>,
           snd (get_rna_data_body net ident w)))
   \<and> ((\<forall>w url. fst (net w url) = 0)
        \<and> (\<forall>w url. \<exists>resp j. snd (net w url) = Some resp \<and> json_body resp = Some j)
        \<and> 20 < length df \<longrightarrow>
      query_rnacentral net df w
        = (Inl (RateLimitException 1),
           \<lparr>clamped_calls = 20, period = 1, last_reset = now w, num_calls = 21\<rparr>,
           \<lparr>now = now w,
             requests = requests w @ map (\<lambda>r. (now w, rna_url (urs_taxid r))) (take 20 df)\<rparr>))"
proof (intro conjI impI)
  assume a: "clamped_calls L \<le> num_calls L \<and> now w - last_reset L < period L"
  then show one: "get_rna_data net ident (L, w)
        = (Inl (RateLimitException (period L - (now w - last_reset L))),
           L\<lparr>num_calls := num_calls L + 1\<rparr>, w)"
    by (simp add: get_rna_data_at_limit)
  then show "progress_map (get_rna_data net) (ident # rest) (L, w)
        = (Inl (RateLimitException (period L - (now w - last_reset L))),
           L\<lparr>num_calls := num_calls L + 1\<rparr>, w)"
    by simp
next
  assume "num_calls L < clamped_calls L \<and> now w - last_reset L < period L"
  then have "admit L (now w) = (Inr (), L\<lparr>num_calls := num_calls L + 1\<rparr>)"
    by (simp add: admit_within_window)
  then show "get_rna_data net ident (L, w)
        = (fst (get_rna_data_body net ident w), L\<lparr>num_calls := num_calls L + 1\<rparr>,
           snd (get_rna_data_body net ident w))"
    by (rule get_rna_data_admitted)
next
  assume "1 \<le> clamped_calls L \<and> period L \<le> now w - last_reset L"
  then have "admit L (now w) = (Inr (), L\<lparr>last_reset := now w, num_calls := 1\<rparr>)"
    by (simp add: admit_new_window)
  then show "get_rna_data net ident (L, w)
        = (fst (get_rna_data_body net ident w), L\<lparr>last_reset := now w, num_calls := 1\<rparr>,
           snd (get_rna_data_body net ident w))"
    by (rule get_rna_data_admitted)
next
  assume a: "(\<forall>w url. fst (net w url) = 0)
        \<and> (\<forall>w url. \<exists>resp j. snd (net w url) = Some resp \<and> json_body resp = Some j)
        \<and> 20 < length df"
  then have "progress_map (get_rna_data net) (map urs_taxid df)
      (\<lparr>clamped_calls = 20, period = 1, last_reset = now w, num_calls = 0\<rparr>, w)
    = (Inl (RateLimitException 1),
       \<lparr>clamped_calls = 20, period = 1, last_reset = now w, num_calls = 20 + 1\<rparr>,
       \<lparr>now = now w, requests = requests w @ map (\<lambda>x. (now w, rna_url x)) (take (nat (20 - 0)) (map urs_taxid df))\<rparr>)"
    by (intro zero_latency_run) simp_all
  then show "query_rnacentral net df w
        = (Inl (RateLimitException 1),
           \<lparr>clamped_calls = 20, period = 1, last_reset = now w, num_calls = 21\<rparr>,
           \<lparr>now = now w,
             requests = requests w @ map (\<lambda>r. (now w, rna_url (urs_taxid r))) (take 20 df)\<rparr>)"
    by (simp add: query_rnacentral_def limits_def maxsize_def take_map comp_def)
qed

text \<open>
  C2: a call that would exceed 20 within the second is to be held back until the window
  allows it, and then made. It is not: of forty-one calls against an endpoint that takes
  no time, the twenty-first raises \<^verbatim>\<open>RateLimitException\<close>; the run ends with the
  exception at time \<open>0\<close> after twenty requests, and nothing has waited.
\<close>

theorem forty_one_calls_raise:
  "query_rnacentral (fake_endpoint 0 serve_A) (replicate 41 row_A) start
     = (Inl (RateLimitException 1),
        \<lparr>clamped_calls = 20, period = 1, last_reset = 0, num_calls = 21\<rparr>,
        \<lparr>now = 0, requests = replicate 20 (0, ''https://rnacentral.org/api/v1/rna/A'')\<rparr>)"
  by code_simp

subsection \<open>The decorator: how many calls start within a second\<close>

lemma started_within_eq:
  "started_within d t reqs = length (filter (\<lambda>q. t - d < fst q \<and> fst q \<le> t) reqs)"
  by (simp add: started_within_def case_prod_unfold)

lemma length_filter_mono:
  "(\<And>x. x \<in> set xs \<Longrightarrow> P x \<Longrightarrow> Q x) \<Longrightarrow> length (filter P xs) \<le> length (filter Q xs)"
  by (induction xs) auto

lemma length_filter_split:
  "(\<And>x. x \<in> set xs \<Longrightarrow> P x \<Longrightarrow> Q x \<or> R x) \<Longrightarrow>
     length (filter P xs) \<le> length (filter Q xs) + length (filter R xs)"
  by (induction xs) auto

lemma length_filter_none:
  "(\<And>x. x \<in> set xs \<Longrightarrow> \<not> P x) \<Longrightarrow> length (filter P xs) = 0"
  by (induction xs) auto

lemma window_inv_step:
  assumes inv: "window_inv L w" and adm: "admit L (now w) = (Inr (), L1)" and d: "0 \<le> d"
  shows "window_inv L1 \<lparr>now = now w + d, requests = requests w @ [(now w, url)]\<rparr>"
proof -
  define r P C n R T where "r = last_reset L" and "P = period L" and "C = clamped_calls L"
    and "n = num_calls L" and "R = requests w" and "T = now w"
  note defs = r_def P_def C_def n_def R_def T_def
  from inv have P: "0 < P" and C: "1 \<le> C" and rT: "r \<le> T" and n: "0 \<le> n" "n \<le> C"
    and A1: "\<And>q. q \<in> set R \<Longrightarrow> fst q \<le> T"
    and A2: "\<And>q. q \<in> set R \<Longrightarrow> r \<le> fst q \<Longrightarrow> fst q < r + P"
    and A3: "int (length (filter (\<lambda>q. r \<le> fst q) R)) \<le> n"
    and A4: "int (length (filter (\<lambda>q. r - P < fst q \<and> fst q < r) R)) \<le> C"
    and A5: "\<And>t. int (length (filter (\<lambda>q. t - P < fst q \<and> fst q \<le> t) R)) \<le> 2 * C"
    by (simp_all add: window_inv_def defs)
  show ?thesis
  proof (cases "T - r < P")
    case True
    with adm have n1: "n + 1 \<le> C" and L1: "L1 = L\<lparr>num_calls := n + 1\<rparr>"
      by (auto simp add: admit_eq defs split: if_splits)
    have G5: "int (length (filter (\<lambda>q. t - P < fst q \<and> fst q \<le> t) (R @ [(T, url)]))) \<le> 2 * C" for t
    proof (cases "t - P < T \<and> T \<le> t")
      case False
      then show ?thesis using A5 [of t] by auto
    next
      case inside: True
      have "length (filter (\<lambda>q. t - P < fst q \<and> fst q \<le> t) R)
          \<le> length (filter (\<lambda>q. r - P < fst q \<and> fst q < r) R) + length (filter (\<lambda>q. r \<le> fst q) R)"
        using inside rT by (intro length_filter_split) auto
      with A3 A4 n1 inside show ?thesis by simp
    qed
    have G3: "int (length (filter (\<lambda>q. r \<le> fst q) (R @ [(T, url)]))) \<le> n + 1"
      using A3 rT by simp
    have G4: "int (length (filter (\<lambda>q. r - P < fst q \<and> fst q < r) (R @ [(T, url)]))) \<le> C"
      using A4 rT by simp
    have G2: "\<And>q. q \<in> set (R @ [(T, url)]) \<Longrightarrow> r \<le> fst q \<Longrightarrow> fst q < r + P"
      using A2 True by auto
    have G1: "\<And>q. q \<in> set (R @ [(T, url)]) \<Longrightarrow> fst q \<le> T + d"
      using A1 d by fastforce
    show ?thesis
      unfolding window_inv_def L1
      using P C rT n n1 d G1 G2 G3 G4 G5 by (simp add: defs)
  next
    case False
    then have reset: "r + P \<le> T" by simp
    with adm C have L1: "L1 = L\<lparr>last_reset := T, num_calls := 1\<rparr>"
      by (auto simp add: admit_eq defs split: if_splits)
    have none: "length (filter (\<lambda>q. T \<le> fst q) R) = 0"
    proof (rule length_filter_none)
      fix q assume q: "q \<in> set R"
      show "\<not> T \<le> fst q"
      proof
        assume "T \<le> fst q"
        with reset P A2 [OF q] show False by simp
      qed
    qed
    have G3: "int (length (filter (\<lambda>q. T \<le> fst q) (R @ [(T, url)]))) \<le> 1"
      using none by simp
    have "length (filter (\<lambda>q. T - P < fst q \<and> fst q < T) R) \<le> length (filter (\<lambda>q. r \<le> fst q) R)"
      using reset by (intro length_filter_mono) auto
    with A3 n have G4: "int (length (filter (\<lambda>q. T - P < fst q \<and> fst q < T) (R @ [(T, url)]))) \<le> C"
      by simp
    have G5: "int (length (filter (\<lambda>q. t - P < fst q \<and> fst q \<le> t) (R @ [(T, url)]))) \<le> 2 * C" for t
    proof (cases "t - P < T \<and> T \<le> t")
      case False
      then show ?thesis using A5 [of t] by auto
    next
      case inside: True
      have "length (filter (\<lambda>q. t - P < fst q \<and> fst q \<le> t) R) \<le> length (filter (\<lambda>q. r \<le> fst q) R)"
        using inside reset by (intro length_filter_mono) auto
      with A3 n C inside show ?thesis by simp
    qed
    have G2: "\<And>q. q \<in> set (R @ [(T, url)]) \<Longrightarrow> T \<le> fst q \<Longrightarrow> fst q < T + P"
      using A1 P by fastforce
    have G1: "\<And>q. q \<in> set (R @ [(T, url)]) \<Longrightarrow> fst q \<le> T + d"
      using A1 d by fastforce
    show ?thesis
      unfolding window_inv_def L1
      using P C d G1 G2 G3 G4 G5 by (simp add: defs)
  qed
qed

lemma window_inv_bounds:
  assumes "window_inv L w"
  shows "int (started_within (period L) t (requests w)) \<le> 2 * clamped_calls L"
    and "int (length (filter (\<lambda>q. last_reset L \<le> fst q) (requests w))) \<le> clamped_calls L"
  using assms by (simp_all add: window_inv_def started_within_eq)

lemma admit_rejected_frame:
  "1 \<le> clamped_calls L \<Longrightarrow> admit L t = (Inl e, L') \<Longrightarrow>
     last_reset L' = last_reset L \<and> period L' = period L \<and> clamped_calls L' = clamped_calls L"
  by (auto simp add: admit_eq split: if_splits)

lemma admit_admitted_frame:
  "admit L t = (r, L') \<Longrightarrow> period L' = period L \<and> clamped_calls L' = clamped_calls L"
  by (auto simp add: admit_eq split: if_splits)

lemma progress_map_window:
  assumes lat: "\<forall>w url. 0 \<le> fst (net w url)"
  shows "window_inv L w \<Longrightarrow> progress_map (get_rna_data net) ids (L, w) = (res, L', w') \<Longrightarrow>
    period L' = period L \<and> clamped_calls L' = clamped_calls L
    \<and> (\<forall>t. int (started_within (period L) t (requests w')) \<le> 2 * clamped_calls L)
    \<and> int (length (filter (\<lambda>q. last_reset L' \<le> fst q) (requests w'))) \<le> clamped_calls L"
proof (induction ids arbitrary: L w res L' w')
  case Nil
  then show ?case using window_inv_bounds [of L w] by simp
next
  case (Cons x xs)
  show ?case
  proof (cases rule: limited_cases [of admit L w "get_rna_data_body net" x])
    case (rejected e L1)
    with Cons.prems(2) have eq: "L' = L1" "w' = w"
      by (simp_all add: get_rna_data_def)
    from Cons.prems(1) have "1 \<le> clamped_calls L" by (simp add: window_inv_def)
    from admit_rejected_frame [OF this rejected(1)] eq window_inv_bounds [OF Cons.prems(1)]
    show ?thesis by simp
  next
    case (admitted L1)
    let ?w1 = "snd (get_rna_data_body net x w)"
    have w1: "?w1 = \<lparr>now = now w + fst (net w (rna_url x)), requests = requests w @ [(now w, rna_url x)]\<rparr>"
      by (simp add: get_rna_data_body_eq)
    have inv1: "window_inv L1 ?w1"
      unfolding w1 using Cons.prems(1) admitted(1) lat by (intro window_inv_step) simp_all
    have frame: "period L1 = period L" "clamped_calls L1 = clamped_calls L"
      using admit_admitted_frame [OF admitted(1)] by simp_all
    show ?thesis
    proof (cases "fst (get_rna_data_body net x w)")
      case (Inl e)
      with admitted(2) Cons.prems(2) have eq: "L' = L1" "w' = ?w1"
        by (simp_all add: get_rna_data_def)
      from window_inv_bounds [OF inv1] eq frame show ?thesis by simp
    next
      case (Inr y)
      obtain r2 L2 w2 where run2: "progress_map (get_rna_data net) xs (L1, ?w1) = (r2, L2, w2)"
        by (metis prod_cases3)
      with admitted(2) Inr Cons.prems(2) have eq: "L' = L2" "w' = w2"
        by (auto simp add: get_rna_data_def split: sum.splits)
      from Cons.IH [OF inv1 run2] eq frame show ?thesis by simp
    qed
  qed
qed

lemma window_inv_initial:
  "requests w = [] \<Longrightarrow> window_inv (limits 20 1 (now w)) w"
  by (simp add: window_inv_def limits_def maxsize_def)

text \<open>
  C3, as the code has it: the decorator counts calls per window, a window beginning at a
  reset and lasting until the first call that arrives a second or more later. In a run
  of the cell whose calls take no negative time, at most 20 of the requests started
  since the decorator's last reset, and at most 40 requests started within any interval
  \<open>(t - 1, t]\<close> of one second, which can overlap two windows.
\<close>

theorem query_rnacentral_window_bound:
  assumes "\<forall>w url. 0 \<le> fst (net w url)" and "requests w = []"
  shows "started_within 1 t (requests (snd (snd (query_rnacentral net df w)))) \<le> 40
    \<and> length (filter (\<lambda>(s, url). last_reset (fst (snd (query_rnacentral net df w))) \<le> s)
         (requests (snd (snd (query_rnacentral net df w))))) \<le> 20"
proof -
  obtain res L' w' where run: "query_rnacentral net df w = (res, L', w')"
    by (metis prod_cases3)
  then have "progress_map (get_rna_data net) (map urs_taxid df) (limits 20 1 (now w), w) = (res, L', w')"
    by (simp add: query_rnacentral_def)
  from progress_map_window [OF assms(1) window_inv_initial [OF assms(2)] this]
  have "int (started_within 1 t (requests w')) \<le> 40"
    and "int (length (filter (\<lambda>q. last_reset L' \<le> fst q) (requests w'))) \<le> 20"
    by (simp_all add: limits_def maxsize_def)
  with run show ?thesis by (simp add: case_prod_unfold)
qed

theorem query_rnacentral_window_bound_witness:
  "started_within 1 1 (requests (snd (snd (query_rnacentral bursty_endpoint (replicate 40 row_A) start))))
     \<le> 40"
proof -
  have lat: "\<forall>w url. 0 \<le> fst (bursty_endpoint w url)"
    by (simp add: bursty_endpoint_def)
  have empty: "requests start = []"
    by (simp add: start_def)
  from query_rnacentral_window_bound [OF lat empty, of 1 "replicate 40 row_A"]
  show ?thesis by blast
qed

text \<open>
  A run of forty calls that all succeed, nineteen of them at time \<open>1/2\<close> in the first
  window and twenty at time \<open>1\<close> in the second: 39 requests started within the second
  that ends at time \<open>1\<close>.
\<close>

theorem bursty_run_exceeds_twenty:
  "fst (query_rnacentral bursty_endpoint (replicate 40 row_A) start) = Inr (replicate 40 mirna_record)
   \<and> started_within 1 1 (requests (snd (snd (query_rnacentral bursty_endpoint (replicate 40 row_A) start)))) = 39"
  by code_simp

subsection \<open>The decorator under the configuration of the notebook\<close>

text \<open>
  C4: under a valid configuration the logic of the limiter is never to fail. The
  configuration of the notebook, 20 calls in a period of 1 second, is valid and is the
  only one the notebook has; under it the admission step fails: with 20 calls counted, a
  call half a second into the window raises \<^verbatim>\<open>RateLimitException\<close>, and a table of 21
  rows against an endpoint that takes no time ends with that exception.
\<close>

theorem limiter_fails_under_valid_configuration:
  "limits 20 1 0 = \<lparr>clamped_calls = 20, period = 1, last_reset = 0, num_calls = 0\<rparr>
   \<and> admit \<lparr>clamped_calls = 20, period = 1, last_reset = 0, num_calls = 20\<rparr> (1 / 2)
       = (Inl (RateLimitException (1 / 2)),
          \<lparr>clamped_calls = 20, period = 1, last_reset = 0, num_calls = 21\<rparr>)
   \<and> fst (query_rnacentral (fake_endpoint 0 serve_A) (replicate 21 row_A) start)
       = Inl (RateLimitException 1)"
  by code_simp

end
